theory Spec2Isabelle
  imports Main
begin

section \<open>The favicon service: a shallow embedding of server.js\<close>

text \<open>
  JavaScript strings are modelled as \<open>string\<close>; only ASCII characters take part in
  the tests of the source (slashes, quotes, angle brackets, tag and attribute names), and
  \<open>toLowerCase\<close> and the \<open>i\<close> flag of a regular expression change ASCII letters only
  here. A Buffer is a list of bytes; \<open>undefined\<close> is \<open>None\<close>. Line numbers are those
  of server.js. The repository holds a second file, an earlier state of the same
  server; where the two differ in what is proved here, both are modelled.
\<close>

type_synonym bytes = "nat list"

subsection \<open>Strings\<close>

definition lower_char :: "char \<Rightarrow> char" where
  "lower_char c =
     (if 65 \<le> (of_char c :: nat) \<and> (of_char c :: nat) \<le> 90
      then (case c of Char b0 b1 b2 b3 b4 b5 b6 b7 \<Rightarrow> Char b0 b1 b2 b3 b4 True b6 b7)
      else c)"

definition toLowerCase :: "string \<Rightarrow> string" where
  "toLowerCase s = map lower_char s"

text \<open>\<open>s[i]\<close>: the character at index \<open>i\<close>, or \<open>undefined\<close> past the end.\<close>

definition char_at :: "string \<Rightarrow> nat \<Rightarrow> char option" where
  "char_at s i = (if i < length s then Some (s ! i) else None)"

text \<open>A literal (lower-case) pattern matched at the start of \<open>s\<close> under the \<open>i\<close> flag.\<close>

definition starts_ci :: "string \<Rightarrow> string \<Rightarrow> bool" where
  "starts_ci p s = (length p \<le> length s \<and> toLowerCase (take (length p) s) = p)"

text \<open>A literal pattern found anywhere in \<open>s\<close> under the \<open>i\<close> flag.\<close>

fun contains_ci :: "string \<Rightarrow> string \<Rightarrow> bool" where
  "contains_ci p [] = (p = [])"
| "contains_ci p (c # cs) = (starts_ci p (c # cs) \<or> contains_ci p cs)"


subsection \<open>fixupUrl\<close>

text \<open>
  \<^verbatim>\<open>function fixupUrl (url, root, protocol) {
    if (url[0] === '/') {
      if (url[1] === '/') { url = protocol + url; } else { url = root + url; }
    }
    return url;
  }\<close>
\<close>

definition fixupUrl :: "string \<Rightarrow> string \<Rightarrow> string \<Rightarrow> string" where
  "fixupUrl url root protocol =
     (if char_at url 0 = Some CHR ''/'' then
        (if char_at url 1 = Some CHR ''/'' then protocol @ url else root @ url)
      else url)"

subsection \<open>The icon candidate\<close>

text \<open>
  One object per candidate, as in the source: \<open>{ 'url': ... }\<close>, with \<open>bgcolor\<close> for
  the tile image, and \<open>data\<close> attached by \<open>getFavicon\<close> once the body has arrived.
\<close>

record favicon =
  url :: string
  bgcolor :: "string option"
  data :: "bytes option"

subsection \<open>The regular expressions of parseFaviconURL\<close>

definition is_quote :: "char \<Rightarrow> bool" where
  "is_quote c = (c = CHR 0x22 \<or> c = CHR 0x27)"

text \<open>
  \<open>/<link ([^>]*)>/gi\<close> and \<open>/<meta([^>]*)>/gi\<close>, run by \<open>exec\<close> in a loop: the
  successive values of \<open>match[1]\<close>. A match starts where the literal \<open>p\<close> is found and
  some \<open>>\<close> follows; the group is the text up to the first \<open>>\<close>, and the next search
  starts after it.
\<close>

function tag_matches :: "string \<Rightarrow> string \<Rightarrow> string list" where
  "tag_matches p [] = []"
| "tag_matches p (c # cs) =
     (if starts_ci p (c # cs) \<and> CHR ''>'' \<in> set (drop (length p) (c # cs))
      then takeWhile (\<lambda>x. x \<noteq> CHR ''>'') (drop (length p) (c # cs))
             # tag_matches p (drop 1 (dropWhile (\<lambda>x. x \<noteq> CHR ''>'') (drop (length p) (c # cs))))
      else tag_matches p cs)"
  by pat_completeness auto

termination
proof (relation "measure (\<lambda>(p, s). length s)")
  show "wf (measure (\<lambda>(p, s). length s))" by simp
next
  fix p :: string and c :: char and cs :: string
  assume "starts_ci p (c # cs) \<and> CHR ''>'' \<in> set (drop (length p) (c # cs))"
  have "length (dropWhile (\<lambda>x. x \<noteq> CHR ''>'') (drop (length p) (c # cs)))
          \<le> length (drop (length p) (c # cs))"
    by (rule length_dropWhile_le)
  also have "\<dots> \<le> length (c # cs)" by simp
  finally have "length (dropWhile (\<lambda>x. x \<noteq> CHR ''>'') (drop (length p) (c # cs))) \<le> Suc (length cs)"
    by simp
  then show "((p, drop 1 (dropWhile (\<lambda>x. x \<noteq> CHR ''>'') (drop (length p) (c # cs)))), (p, c # cs))
               \<in> measure (\<lambda>(p, s). length s)"
    by simp
next
  fix p :: string and c :: char and cs :: string
  show "((p, cs), (p, c # cs)) \<in> measure (\<lambda>(p, s). length s)" by simp
qed

text \<open>
  \<open>/key["']fixed([^"']*)["']/i\<close> tried at the start of \<open>s\<close>: the group is the run of
  non-quote characters after \<open>fixed\<close>, and a quote has to close it. \<open>href_re\<close> and
  \<open>content_re\<close> have an empty \<open>fixed\<close>, \<open>name_re\<close> has \<open>msapplication-\<close>.
\<close>

definition attr_at :: "string \<Rightarrow> string \<Rightarrow> string \<Rightarrow> string option" where
  "attr_at key fixed s =
     (if starts_ci key s then
        (case drop (length key) s of
           [] \<Rightarrow> None
         | q # t \<Rightarrow>
             if is_quote q \<and> starts_ci fixed t
                \<and> dropWhile (\<lambda>x. \<not> is_quote x) (drop (length fixed) t) \<noteq> []
             then Some (takeWhile (\<lambda>x. \<not> is_quote x) (drop (length fixed) t))
             else None)
      else None)"

text \<open>\<open>re.exec(s)\<close> without the \<open>g\<close> flag: the leftmost match, or \<open>null\<close>.\<close>

fun attr_exec :: "string \<Rightarrow> string \<Rightarrow> string \<Rightarrow> string option" where
  "attr_exec key fixed [] = None"
| "attr_exec key fixed (c # cs) =
     (case attr_at key fixed (c # cs) of
        Some m \<Rightarrow> Some m
      | None \<Rightarrow> attr_exec key fixed cs)"

text \<open>\<open>/rel=["'][^"']*icon[^"']*["']/i\<close> tried at the start of \<open>s\<close>, and \<open>test\<close>.\<close>

definition rel_at :: "string \<Rightarrow> bool" where
  "rel_at s =
     (starts_ci ''rel='' s \<and>
      (case drop 4 s of
         [] \<Rightarrow> False
       | q # t \<Rightarrow> is_quote q \<and> dropWhile (\<lambda>x. \<not> is_quote x) t \<noteq> []
                   \<and> contains_ci ''icon'' (takeWhile (\<lambda>x. \<not> is_quote x) t)))"

fun rel_test :: "string \<Rightarrow> bool" where
  "rel_test [] = False"
| "rel_test (c # cs) = (rel_at (c # cs) \<or> rel_test cs)"

subsection \<open>parseFaviconURL\<close>

text \<open>
  The first loop (lines 169-175), over the \<open>link\<close> matches, pushing onto \<open>icons\<close>.
\<close>

fun link_loop :: "string list \<Rightarrow> string \<Rightarrow> string \<Rightarrow> favicon list \<Rightarrow> favicon list" where
  "link_loop [] root protocol icons = icons"
| "link_loop (m # ms) root protocol icons =
     (if rel_test m then
        (case attr_exec ''href='' [] m of
           Some faviconURL \<Rightarrow>
             link_loop ms root protocol
               (icons @ [\<lparr>url = fixupUrl faviconURL root protocol, bgcolor = None, data = None\<rparr>])
         | None \<Rightarrow> link_loop ms root protocol icons)
      else link_loop ms root protocol icons)"

text \<open>
  The second loop (lines 182-192), over the \<open>meta\<close> matches, assigning \<open>tileURL\<close> and
  \<open>tileColor\<close>; a later tag overwrites an earlier one.
\<close>

fun meta_loop :: "string list \<Rightarrow> string option \<times> string option \<Rightarrow> string option \<times> string option" where
  "meta_loop [] (tileURL, tileColor) = (tileURL, tileColor)"
| "meta_loop (m # ms) (tileURL, tileColor) =
     (case (attr_exec ''name='' ''msapplication-'' m, attr_exec ''content='' [] m) of
        (Some name_match, Some content_match) \<Rightarrow>
          if name_match = ''TileImage'' then meta_loop ms (Some content_match, tileColor)
          else if name_match = ''TileColor'' then meta_loop ms (tileURL, Some content_match)
          else meta_loop ms (tileURL, tileColor)
      | _ \<Rightarrow> meta_loop ms (tileURL, tileColor))"

text \<open>\<open>if (s)\<close> on a string that may be \<open>undefined\<close>: the empty string is falsy too.\<close>

definition truthy :: "string option \<Rightarrow> bool" where
  "truthy s = (s \<noteq> None \<and> s \<noteq> Some [])"

definition parseFaviconURL :: "string \<Rightarrow> string \<Rightarrow> string \<Rightarrow> favicon list" where
  "parseFaviconURL html root protocol =
     (let icons = link_loop (tag_matches ''<link '' html) root protocol [] in
      case meta_loop (tag_matches ''<meta'' html) (None, None) of
        (tileURL, tileColor) \<Rightarrow>
          (case tileURL of
             None \<Rightarrow> icons
           | Some t \<Rightarrow>
               if t = [] then icons
               else if truthy tileColor
               then icons @ [\<lparr>url = fixupUrl t root protocol, bgcolor = tileColor, data = None\<rparr>]
               else icons @ [\<lparr>url = fixupUrl t root protocol, bgcolor = None, data = None\<rparr>]))"

subsection \<open>The request's variables and done\<close>

text \<open>
  The variables closed over by one request (lines 246-251). \<open>returned\<close> is the
  arrived count, \<open>expected\<close> the expected count, \<open>favicons\<close> the unique payloads.
\<close>

record vars =
  returned :: nat
  expected :: nat
  htmlLoaded :: bool
  converted :: nat
  stored :: nat
  favicons :: "favicon list"

definition initial_vars :: vars where
  "initial_vars =
     \<lparr>returned = 0, expected = 3, htmlLoaded = False, converted = 0, stored = 0, favicons = []\<rparr>"

datatype error = TypeError | IOError | NoSuchCallback

text \<open>
  What a callback does to the outside: the response, the file system, the converter, and
  the two continuations of the request handler.
\<close>

datatype action =
    ResponseEnd
  | SendEmpty
  | LoadIcon string
  | SaveFavicon nat favicon
  | ServeFromCache
  | Mkdir
  | RetrieveAllFavicons
  | Throw error

text \<open>
  The loop of lines 258-265: is the new payload already known? The comparison is
  \<open>newFavicon.data.compare(favicon.data) == 0\<close>, which is equality of the bytes, and
  a TypeError when either \<open>data\<close> is \<open>undefined\<close>.
\<close>

fun known :: "favicon \<Rightarrow> favicon list \<Rightarrow> error + bool" where
  "known newFavicon [] = Inr False"
| "known newFavicon (favicon # rest) =
     (case (data newFavicon, data favicon) of
        (Some a, Some b) \<Rightarrow> if a = b then Inr True else known newFavicon rest
      | _ \<Rightarrow> Inl TypeError)"

text \<open>Lines 254-270: count the arrival, and keep the payload unless it is known.\<close>

definition arrive :: "favicon option \<Rightarrow> vars \<Rightarrow> error + vars" where
  "arrive newFavicon v =
     (case newFavicon of
        None \<Rightarrow> Inr (v\<lparr>returned := returned v + 1\<rparr>)
      | Some nf \<Rightarrow>
          (case known nf (favicons v) of
             Inl e \<Rightarrow> Inl e
           | Inr skip \<Rightarrow>
               if skip then Inr (v\<lparr>returned := returned v + 1\<rparr>)
               else Inr (v\<lparr>returned := returned v + 1,
                           favicons := favicons v @ [nf],
                           stored := stored v + 1\<rparr>)))"

text \<open>
  Lines 273-308, the block run when the request is complete: end the response when
  nothing was stored, and save every stored favicon (file index \<open>j\<close>) for conversion.
  \<open>SaveFavicon j fi\<close> is the call \<open>saveFavicon(filename, fi, convertFn)\<close>: the file is
  written and, when that succeeds, \<open>convertFn\<close> starts the converter, whose callback is
  \<open>convert_callback\<close> below.
\<close>

definition completion_block :: "vars \<Rightarrow> action list" where
  "completion_block v =
     (if stored v = 0 then [ResponseEnd] else [])
       @ map (\<lambda>(j, fi). SaveFavicon j fi) (enumerate 0 (favicons v))"

text \<open>The test of line 272.\<close>

definition complete :: "vars \<Rightarrow> bool" where
  "complete v = (returned v \<ge> expected v \<and> htmlLoaded v)"

text \<open>
  \<open>done\<close> (the name is a keyword here, hence \<open>done_fn\<close>): the new variables, and the
  effects of the completion block when it ran (\<open>None\<close> when it did not).
\<close>

definition done_fn :: "favicon option \<Rightarrow> vars \<Rightarrow> error + (vars \<times> action list option)" where
  "done_fn newFavicon v =
     (case arrive newFavicon v of
        Inl e \<Rightarrow> Inl e
      | Inr v' \<Rightarrow> Inr (v', if complete v' then Some (completion_block v') else None))"

subsection \<open>The callbacks of retrieveAllFavicons\<close>

text \<open>
  The callback handed to \<open>getFavicon\<close> (lines 400-409 and 430-437):
  \<open>if (faviconObj.data) done(faviconObj) else done()\<close>. A Buffer is an object, so
  the test is true whenever \<open>data\<close> is set, also for an empty body.
\<close>

definition favicon_callback :: "favicon \<Rightarrow> vars \<Rightarrow> error + (vars \<times> action list option)" where
  "favicon_callback faviconObj v =
     (if data faviconObj \<noteq> None then done_fn (Some faviconObj) v else done_fn None v)"

text \<open>
  The callback handed to \<open>getHTML\<close> (lines 418-450), with the number of
  \<open>getFavicon\<close> calls it dispatches. \<open>if (html)\<close> is false for \<open>undefined\<close> and for
  the empty string. The two branches without a candidate (lines 440-443 and 445-448)
  are the same code.
\<close>

definition no_candidates :: "vars \<Rightarrow> error + (vars \<times> action list option \<times> nat)" where
  "no_candidates v =
     (case done_fn None (v\<lparr>htmlLoaded := True\<rparr>) of
        Inl e \<Rightarrow> Inl e
      | Inr (v', blk) \<Rightarrow> Inr (v', blk, 0))"

definition html_callback ::
  "string \<Rightarrow> string \<Rightarrow> string option \<Rightarrow> vars \<Rightarrow> error + (vars \<times> action list option \<times> nat)" where
  "html_callback root protocol html v =
     (case html of
        None \<Rightarrow> no_candidates v
      | Some h \<Rightarrow>
          if h = [] then no_candidates v
          else (let faviconURLs = parseFaviconURL h root protocol in
                if length faviconURLs > 0
                then Inr (v\<lparr>expected := expected v + length faviconURLs, htmlLoaded := True\<rparr>,
                          None, length faviconURLs)
                else no_candidates v))"

subsection \<open>One request under the event loop\<close>

text \<open>
  The state of a request after \<open>retrieveAllFavicons\<close>: its variables, the number of
  \<open>getFavicon\<close> calls whose callback has not run yet, whether the \<open>getHTML\<close> callback
  is still to come, and the effects of every run of the completion block so far.
  The event loop runs one callback at a time, in any order; every dispatched request
  calls its callback once.
\<close>

record sys =
  job :: vars
  inflight :: nat
  htmlPending :: bool
  blocks :: "action list list"

definition initial_sys :: sys where
  "initial_sys = \<lparr>job = initial_vars, inflight = 3, htmlPending = True, blocks = []\<rparr>"

datatype event =
    FaviconBack favicon
  | HtmlBack "string option"

definition ran :: "action list option \<Rightarrow> action list list" where
  "ran blk = (case blk of None \<Rightarrow> [] | Some acts \<Rightarrow> [acts])"

definition step :: "string \<Rightarrow> string \<Rightarrow> event \<Rightarrow> sys \<Rightarrow> error + sys" where
  "step root protocol ev s =
     (case ev of
        FaviconBack faviconObj \<Rightarrow>
          if inflight s = 0 then Inl NoSuchCallback
          else (case favicon_callback faviconObj (job s) of
                  Inl e \<Rightarrow> Inl e
                | Inr (v', blk) \<Rightarrow>
                    Inr (s\<lparr>job := v', inflight := inflight s - 1, blocks := blocks s @ ran blk\<rparr>))
      | HtmlBack html \<Rightarrow>
          if \<not> htmlPending s then Inl NoSuchCallback
          else (case html_callback root protocol html (job s) of
                  Inl e \<Rightarrow> Inl e
                | Inr (v', blk, k) \<Rightarrow>
                    Inr (s\<lparr>job := v', inflight := inflight s + k, htmlPending := False,
                           blocks := blocks s @ ran blk\<rparr>)))"

fun run :: "string \<Rightarrow> string \<Rightarrow> event list \<Rightarrow> sys \<Rightarrow> error + sys" where
  "run root protocol [] s = Inr s"
| "run root protocol (ev # evs) s =
     (case step root protocol ev s of
        Inl e \<Rightarrow> Inl e
      | Inr s' \<Rightarrow> run root protocol evs s')"

subsection \<open>getFavicon\<close>











subsection \<open>The callback of imagemagick.convert\<close>

text \<open>
  server.js, lines 293-303: count the report, log, and look the cache up again when
  every stored favicon has reported. \<open>err\<close> is whether the conversion failed.
\<close>

definition convert_callback :: "bool \<Rightarrow> vars \<Rightarrow> vars \<times> action list" where
  "convert_callback err v =
     (let v' = v\<lparr>converted := converted v + 1\<rparr>
      in (v', if converted v' = stored v' then [ServeFromCache] else []))"

text \<open>
  The second source file (an earlier state of the server), lines 276-291: the same
  callback, with a \<open>return\<close> in the error branch.
\<close>

definition convert_callback_part_000 :: "bool \<Rightarrow> vars \<Rightarrow> vars \<times> action list" where
  "convert_callback_part_000 err v =
     (let v' = v\<lparr>converted := converted v + 1\<rparr>
      in if err then (v', [])
         else (v', if converted v' = stored v' then [ServeFromCache] else []))"

text \<open>The reports of the conversions, one callback each, in the order they come.\<close>

fun reports :: "(bool \<Rightarrow> vars \<Rightarrow> vars \<times> action list) \<Rightarrow> bool list \<Rightarrow> vars \<Rightarrow> vars \<times> action list" where
  "reports cb [] v = (v, [])"
| "reports cb (err # errs) v =
     (case cb err v of
        (v', acts) \<Rightarrow> (case reports cb errs v' of (v'', acts') \<Rightarrow> (v'', acts @ acts')))"

subsection \<open>serveFromCache\<close>

text \<open>
  \<open>size\<close> is the number 16 or the string of the query. A width is the second piece of
  the file name split at the dots, a string or \<open>undefined\<close>. Numbers are integers here:
  \<open>to_number\<close> reads an optionally signed decimal numeral (the converter writes \<open>%w\<close>
  so) and the empty string as 0, and takes every other string for NaN (\<open>None\<close>).
  JavaScript also reads blanks, fractions, exponents and hexadecimal numerals, and it
  rounds long numerals; \<open>plain_digits\<close> below bounds the strings on which the two agree.
\<close>

datatype size_param = SizeNum int | SizeStr string

fun split_on :: "char \<Rightarrow> string \<Rightarrow> string list" where
  "split_on d [] = [[]]"
| "split_on d (c # cs) =
     (if c = d then [] # split_on d cs
      else (case split_on d cs of
              [] \<Rightarrow> [[c]]
            | p # ps \<Rightarrow> (c # p) # ps))"

definition width_of :: "string \<Rightarrow> string option" where
  "width_of file =
     (if 1 < length (split_on CHR ''.'' file) then Some (split_on CHR ''.'' file ! 1) else None)"

definition is_digit :: "char \<Rightarrow> bool" where
  "is_digit c = (48 \<le> (of_char c :: nat) \<and> (of_char c :: nat) \<le> 57)"

definition digits_value :: "string \<Rightarrow> int" where
  "digits_value s = foldl (\<lambda>acc c. 10 * acc + (int (of_char c) - 48)) 0 s"

definition to_number :: "string \<Rightarrow> int option" where
  "to_number s =
     (case s of
        [] \<Rightarrow> Some 0
      | c # cs \<Rightarrow>
          if (c = CHR ''-'' \<or> c = CHR ''+'') \<and> cs \<noteq> [] \<and> list_all is_digit cs
          then Some (if c = CHR ''-'' then - digits_value cs else digits_value cs)
          else if list_all is_digit (c # cs) then Some (digits_value (c # cs))
          else None)"

text \<open>\<open>size == width\<close>: numbers when \<open>size\<close> is a number, strings when both are.\<close>

definition loose_eq :: "size_param \<Rightarrow> string option \<Rightarrow> bool" where
  "loose_eq size_req width =
     (case width of
        None \<Rightarrow> False
      | Some w \<Rightarrow> (case size_req of SizeNum n \<Rightarrow> to_number w = Some n | SizeStr q \<Rightarrow> q = w))"

definition size_number :: "size_param \<Rightarrow> int option" where
  "size_number size_req = (case size_req of SizeNum n \<Rightarrow> Some n | SizeStr q \<Rightarrow> to_number q)"

text \<open>\<open>width - size\<close>; \<open>None\<close> is NaN, which no comparison accepts.\<close>

definition difference_of :: "string option \<Rightarrow> size_param \<Rightarrow> int option" where
  "difference_of width size_req =
     (case width of
        None \<Rightarrow> None
      | Some w \<Rightarrow>
          (case (to_number w, size_number size_req) of
             (Some a, Some b) \<Rightarrow> Some (a - b)
           | _ \<Rightarrow> None))"




text \<open>
  Lines 340-349, for a file that is no exact fit: the new \<open>bestFit\<close> and
  \<open>bestFitDifference\<close>.
\<close>

definition best_step :: "size_param \<Rightarrow> string \<Rightarrow> string option \<times> int \<Rightarrow> string option \<times> int" where
  "best_step size_req file best =
     (case best of
        (bestFit, bestFitDifference) \<Rightarrow>
          (case difference_of (width_of file) size_req of
             None \<Rightarrow> (bestFit, bestFitDifference)
           | Some difference \<Rightarrow>
               if difference > bestFitDifference \<and> bestFitDifference > 0
               then (bestFit, bestFitDifference)
               else if difference > bestFitDifference then (Some file, difference)
               else (bestFit, bestFitDifference)))"

text \<open>
  The loop of lines 328-351 and what follows it: \<open>!bestFit\<close> holds for \<open>null\<close> and for
  an empty name, and \<open>loadIcon\<close> is called in either case (\<open>foldername + null\<close> is the
  folder name followed by \<open>null\<close>).
\<close>

fun scan :: "size_param \<Rightarrow> string \<Rightarrow> string list \<Rightarrow> string option \<times> int \<Rightarrow> action list" where
  "scan size_req foldername [] best =
     (if fst best = None \<or> fst best = Some [] then [SendEmpty] else [])
       @ [LoadIcon (foldername @ (case fst best of None \<Rightarrow> ''null'' | Some f \<Rightarrow> f))]"
| "scan size_req foldername (file # files) best =
     (if loose_eq size_req (width_of file) then [LoadIcon (foldername @ file)]
      else scan size_req foldername files (best_step size_req file best))"

text \<open>\<open>cb()\<close>: the continuation, or a TypeError when none was passed (line 301).\<close>

definition call :: "action option \<Rightarrow> action list" where
  "call cb = (case cb of None \<Rightarrow> [Throw TypeError] | Some a \<Rightarrow> [a])"

definition getBestFromCache ::
  "size_param \<Rightarrow> string \<Rightarrow> error + string list \<Rightarrow> action option \<Rightarrow> action list" where
  "getBestFromCache size_req foldername readdir cb =
     (case readdir of
        Inl e \<Rightarrow> call cb
      | Inr files \<Rightarrow> scan size_req foldername files (None, - 100000))"

text \<open>
  Lines 363-381. \<open>stat\<close> is the directory's modification time in milliseconds, or the
  error of \<open>fs.stat\<close>. \<open>if (expires)\<close> is false when \<open>expires\<close> was not passed and when
  it is 0.
\<close>

definition serveFromCache ::
  "size_param \<Rightarrow> string \<Rightarrow> error + int \<Rightarrow> error + string list \<Rightarrow> int option \<Rightarrow> action option
     \<Rightarrow> action list" where
  "serveFromCache size_req foldername stat readdir expires cb =
     (case expires of
        None \<Rightarrow> getBestFromCache size_req foldername readdir cb
      | Some e \<Rightarrow>
          if e = 0 then getBestFromCache size_req foldername readdir cb
          else (case stat of
                  Inl err \<Rightarrow> call cb
                | Inr mtime \<Rightarrow>
                    if mtime < e then call cb
                    else getBestFromCache size_req foldername readdir cb))"

subsection \<open>The request handler\<close>

definition CACHE_TTL :: int where
  "CACHE_TTL = 3 * 24 * 60 * 60 * 1000"

text \<open>
  Lines 237-240 and 453-465: \<open>root\<close> is the path without its first character,
  \<open>dir_exists\<close> the answer of \<open>fs.exists(cacheDir)\<close>, \<open>now\<close> the clock in milliseconds.
  \<open>RetrieveAllFavicons\<close> stands for the call of \<open>retrieveAllFavicons\<close>, the only place
  that fetches; the converter is only called from the completion block of \<open>done\<close>.
\<close>

definition request_handler ::
  "string \<Rightarrow> size_param \<Rightarrow> string \<Rightarrow> bool \<Rightarrow> error + int \<Rightarrow> error + string list \<Rightarrow> int \<Rightarrow> action list" where
  "request_handler root size_req cacheDir dir_exists stat readdir now =
     (if root = ''favicon.ico'' then [SendEmpty]
      else if \<not> dir_exists then [Mkdir, RetrieveAllFavicons]
      else serveFromCache size_req cacheDir stat readdir (Some (now - CACHE_TTL))
             (Some RetrieveAllFavicons))"

subsection \<open>What the scan of the HTML finds\<close>

text \<open>
  The values before resolution: the \<open>href\<close> of every \<open>link\<close> tag whose \<open>rel\<close>
  holds \<open>icon\<close>, in document order, and then the content of the tile image when there
  is one and it is not empty.
\<close>

definition icon_hrefs :: "string \<Rightarrow> string list" where
  "icon_hrefs html =
     List.map_filter (attr_exec ''href='' []) (filter rel_test (tag_matches ''<link '' html))"

definition tile_image :: "string \<Rightarrow> string list" where
  "tile_image html =
     (case fst (meta_loop (tag_matches ''<meta'' html) (None, None)) of
        None \<Rightarrow> []
      | Some t \<Rightarrow> if t = [] then [] else [t])"

subsection \<open>Arrivals and first occurrences\<close>

text \<open>
  The objects handed to \<open>done\<close> with a payload, in the order of their callbacks, and
  of a list of such objects the first one of every payload, in the same order.
\<close>

fun payloads :: "event list \<Rightarrow> favicon list" where
  "payloads [] = []"
| "payloads (FaviconBack f # evs) = (if data f \<noteq> None then f # payloads evs else payloads evs)"
| "payloads (HtmlBack html # evs) = payloads evs"

fun first_by_data :: "favicon list \<Rightarrow> favicon list" where
  "first_by_data [] = []"
| "first_by_data (f # fs) = f # first_by_data (filter (\<lambda>g. data g \<noteq> data f) fs)"

text \<open>What holds of \<open>favicons\<close> throughout: every entry has its data, no two the same.\<close>

definition payloads_ok :: "favicon list \<Rightarrow> bool" where
  "payloads_ok fs = (list_all (\<lambda>f. data f \<noteq> None) fs \<and> distinct (map data fs))"

subsection \<open>Example inputs\<close>

definition icon_ico :: favicon where
  "icon_ico = \<lparr>url = ''http://example.com/favicon.ico'', bgcolor = None, data = Some [0, 0, 1, 0]\<rparr>"

definition icon_touch :: favicon where
  "icon_touch =
     \<lparr>url = ''http://example.com/apple-touch-icon.png'', bgcolor = None, data = Some [137, 80, 78, 71]\<rparr>"

definition icon_tile :: favicon where
  "icon_tile =
     \<lparr>url = ''http://example.com/tile.png'', bgcolor = Some ''#ffffff'', data = Some [0, 0, 1, 0]\<rparr>"

definition icon_missing :: favicon where
  "icon_missing =
     \<lparr>url = ''http://example.com/apple-touch-icon-precomposed.png'', bgcolor = None, data = None\<rparr>"

subsection \<open>Example networks\<close>




subsection \<open>The join, as an invariant\<close>

text \<open>The candidates that the callback of \<open>getHTML\<close> dispatches.\<close>

definition found_candidates :: "string \<Rightarrow> string \<Rightarrow> string option \<Rightarrow> favicon list" where
  "found_candidates root protocol html =
     (case html of
        None \<Rightarrow> []
      | Some h \<Rightarrow> if h = [] then [] else parseFaviconURL h root protocol)"

text \<open>
  What holds of a request at any moment. Before the HTML callback nothing has
  completed and the three root fetches are counted against \<open>expected = 3\<close>. After an
  HTML callback that found candidates (\<open>expected\<close> is then more than 3) every arrival
  still to come is expected, and the block has run exactly when none is left. After
  one that found none, the four calls of \<open>done\<close> stand against \<open>expected = 3\<close>.
\<close>

definition join_inv :: "sys \<Rightarrow> bool" where
  "join_inv s =
     (payloads_ok (favicons (job s)) \<and>
      (if htmlPending s
       then \<not> htmlLoaded (job s) \<and> expected (job s) = 3 \<and> returned (job s) + inflight s = 3
            \<and> blocks s = []
       else htmlLoaded (job s) \<and>
            (if 3 < expected (job s)
             then returned (job s) + inflight s = expected (job s)
                  \<and> blocks s = (if inflight s = 0 then [completion_block (job s)] else [])
             else expected (job s) = 3 \<and> returned (job s) + inflight s = 4)))"

section \<open>Properties\<close>

subsection \<open>Candidate URLs\<close>

lemma fixupUrl_cases:
  "fixupUrl h root protocol =
     (if take 2 h = ''//'' then protocol @ h else if take 1 h = ''/'' then root @ h else h)"
proof (cases h)
  case Nil
  then show ?thesis by (simp add: fixupUrl_def char_at_def)
next
  case (Cons a t)
  show ?thesis
  proof (cases t)
    case Nil
    with Cons show ?thesis by (simp add: fixupUrl_def char_at_def)
  next
    case (Cons b t')
    with \<open>h = a # t\<close> show ?thesis by (auto simp add: fixupUrl_def char_at_def)
  qed
qed

lemma link_loop_urls:
  "map url (link_loop ms root protocol icons) =
     map url icons @ map (\<lambda>h. fixupUrl h root protocol)
       (List.map_filter (attr_exec ''href='' []) (filter rel_test ms))"
  by (induction ms arbitrary: icons) (auto simp: map_filter_simps split: option.splits)

lemma parseFaviconURL_urls:
  "map url (parseFaviconURL html root protocol) =
     map (\<lambda>h. fixupUrl h root protocol) (icon_hrefs html @ tile_image html)"
  by (cases "meta_loop (tag_matches ''<meta'' html) (None, None)")
     (auto simp: parseFaviconURL_def icon_hrefs_def tile_image_def link_loop_urls Let_def
           split: option.splits)

text \<open>
  Claim C7. Every value found by the scan (the hrefs of the icon links, then the tile
  image) is emitted resolved by \<open>fixupUrl\<close>, in the same order: a value that begins
  with \<open>//\<close> gets the protocol string in front, one that begins with a single \<open>/\<close>
  gets the root, any other value is emitted as it is. With the root
  \<open>http://example.com\<close>, \<open>/static/icon.png\<close> becomes
  \<open>http://example.com/static/icon.png\<close>.
\<close>

theorem candidate_url_resolution:
  "fixupUrl h root protocol =
     (if take 2 h = ''//'' then protocol @ h else if take 1 h = ''/'' then root @ h else h)
   \<and> map url (parseFaviconURL html root protocol) =
       map (\<lambda>h. fixupUrl h root protocol) (icon_hrefs html @ tile_image html)
   \<and> fixupUrl ''/static/icon.png'' ''http://example.com'' ''http:'' =
       ''http://example.com/static/icon.png''"
  by (simp only: fixupUrl_cases [symmetric] parseFaviconURL_urls simp_thms)
     (simp add: fixupUrl_cases)

theorem candidate_url_resolution_witness:
  "fixupUrl ''//cdn.example.com/t.png'' ''http://example.com'' ''http:'' = ''http://cdn.example.com/t.png''
   \<and> fixupUrl ''icons/a.ico'' ''http://example.com'' ''http:'' = ''icons/a.ico''
   \<and> map url (parseFaviconURL ''<link rel=\"icon\" href=\"/static/icon.png\">''
                  ''http://example.com'' ''http:'') = [''http://example.com/static/icon.png'']"
proof -
  have found: "icon_hrefs ''<link rel=\"icon\" href=\"/static/icon.png\">''
                 @ tile_image ''<link rel=\"icon\" href=\"/static/icon.png\">'' = [''/static/icon.png'']"
    by code_simp
  show ?thesis
    using candidate_url_resolution
            [of "''//cdn.example.com/t.png''" "''http://example.com''" "''http:''"
                "''<link rel=\"icon\" href=\"/static/icon.png\">''"]
          candidate_url_resolution
            [of "''icons/a.ico''" "''http://example.com''" "''http:''" "[]"]
    by (simp add: found)
qed

subsection \<open>The cache\<close>

lemma scan_actions:
  "a \<in> set (scan size_req foldername files best) \<Longrightarrow> a = SendEmpty \<or> (\<exists>p. a = LoadIcon p)"
  by (induction files arbitrary: best) (auto split: if_splits)

text \<open>
  Claim C8. A lookup with a maximum age (\<open>expires\<close> is passed and is not 0, the test
  \<open>if (expires)\<close> of the source) on a directory whose modification time is older than
  \<open>expires\<close> calls the miss continuation and does nothing else, whatever the directory
  holds and whether or not it can be read: no file is selected.
\<close>

theorem stale_directory_is_a_miss:
  assumes "e \<noteq> 0" and "mtime < e"
  shows "serveFromCache size_req foldername (Inr mtime) readdir (Some e) (Some miss) = [miss]"
  using assms by (simp add: serveFromCache_def call_def)

theorem stale_directory_is_a_miss_witness:
  "(1700000000000 - CACHE_TTL \<noteq> 0) \<and> ((1699000000000 :: int) < 1700000000000 - CACHE_TTL)
   \<and> serveFromCache (SizeNum 16) ''favicons/example.com/'' (Inr 1699000000000)
        (Inr [''0.16.png'']) (Some (1700000000000 - CACHE_TTL)) (Some RetrieveAllFavicons)
      = [RetrieveAllFavicons]
   \<and> request_handler ''example.com'' (SizeNum 16) ''favicons/example.com/'' True
        (Inr 1699000000000) (Inr [''0.16.png'']) 1700000000000
      = [RetrieveAllFavicons]"
proof -
  have h1: "1700000000000 - CACHE_TTL \<noteq> 0" by (simp add: CACHE_TTL_def)
  have h2: "(1699000000000 :: int) < 1700000000000 - CACHE_TTL" by (simp add: CACHE_TTL_def)
  note miss = stale_directory_is_a_miss [OF h1 h2, of "SizeNum 16" "''favicons/example.com/''"
      "Inr [''0.16.png'']" RetrieveAllFavicons]
  from miss have "request_handler ''example.com'' (SizeNum 16) ''favicons/example.com/'' True
        (Inr 1699000000000) (Inr [''0.16.png'']) 1700000000000
      = [RetrieveAllFavicons]"
    by (simp add: request_handler_def)
  with h1 h2 miss show ?thesis by blast
qed

text \<open>
  Claim C9. When the cache directory exists, its modification time is within the TTL
  and it can be listed, the request handler only answers from the cache: every effect
  is a \<open>loadIcon\<close> or a \<open>sendEmpty\<close>, and \<open>retrieveAllFavicons\<close>, the only code that
  fetches and whose completion is the only code that converts, is not called.
\<close>

theorem fresh_hit_does_not_retrieve:
  assumes "dir_exists" and "stat = Inr mtime" and "now - CACHE_TTL \<le> mtime"
    and "readdir = Inr files"
  shows "RetrieveAllFavicons \<notin> set (request_handler root size_req cacheDir dir_exists stat readdir now)
       \<and> list_all (\<lambda>a. a = SendEmpty \<or> (\<exists>p. a = LoadIcon p))
            (request_handler root size_req cacheDir dir_exists stat readdir now)"
  using assms scan_actions [of _ size_req cacheDir files "(None, - 100000)"]
  by (auto simp: request_handler_def serveFromCache_def getBestFromCache_def list_all_iff)

theorem fresh_hit_does_not_retrieve_witness:
  "request_handler ''example.com'' (SizeNum 16) ''favicons/example.com/'' True
     (Inr 1700000000000) (Inr [''0.32.png'', ''0.16.png'']) 1700000001000
     = [LoadIcon ''favicons/example.com/0.16.png'']
   \<and> RetrieveAllFavicons \<notin> set (request_handler ''example.com'' (SizeNum 16)
         ''favicons/example.com/'' True (Inr 1700000000000) (Inr [''0.32.png'', ''0.16.png''])
         1700000001000)"
proof -
  have fresh: "1700000001000 - CACHE_TTL \<le> (1700000000000 :: int)" by (simp add: CACHE_TTL_def)
  have served: "request_handler ''example.com'' (SizeNum 16) ''favicons/example.com/'' True
     (Inr 1700000000000) (Inr [''0.32.png'', ''0.16.png'']) 1700000001000
     = [LoadIcon ''favicons/example.com/0.16.png'']"
    by code_simp
  show ?thesis
    using served fresh_hit_does_not_retrieve [OF TrueI refl fresh refl,
        of "''example.com''" "SizeNum 16" "''favicons/example.com/''" "[''0.32.png'', ''0.16.png'']"]
    by simp
qed

subsection \<open>The unique payloads\<close>

lemma known_iff:
  "list_all (\<lambda>f. data f \<noteq> None) fs \<Longrightarrow> data nf \<noteq> None \<Longrightarrow>
     known nf fs = Inr (data nf \<in> set (map data fs))"
  by (induction fs) (auto split: option.splits)

lemma arrive_None: "arrive None v = Inr (v\<lparr>returned := returned v + 1\<rparr>)"
  by (simp add: arrive_def)

lemma arrive_Some:
  assumes "list_all (\<lambda>f. data f \<noteq> None) (favicons v)" and "data nf \<noteq> None"
  shows "arrive (Some nf) v =
           Inr (if data nf \<in> set (map data (favicons v)) then v\<lparr>returned := returned v + 1\<rparr>
                else v\<lparr>returned := returned v + 1, favicons := favicons v @ [nf],
                       stored := stored v + 1\<rparr>)"
  using known_iff [OF assms] by (simp add: arrive_def)

lemma done_fn_None:
  "done_fn None v =
     Inr (v\<lparr>returned := returned v + 1\<rparr>,
          if complete (v\<lparr>returned := returned v + 1\<rparr>)
          then Some (completion_block (v\<lparr>returned := returned v + 1\<rparr>)) else None)"
  by (simp add: done_fn_def arrive_None)

text \<open>One callback of \<open>getFavicon\<close>, on variables that satisfy \<open>payloads_ok\<close>.\<close>

lemma favicon_callback_favicons:
  assumes "payloads_ok (favicons v)"
  shows "\<exists>v' blk. favicon_callback f v = Inr (v', blk)
           \<and> returned v' = returned v + 1 \<and> expected v' = expected v \<and> htmlLoaded v' = htmlLoaded v
           \<and> converted v' = converted v
           \<and> blk = (if complete v' then Some (completion_block v') else None)
           \<and> favicons v' = (if data f \<noteq> None \<and> data f \<notin> set (map data (favicons v))
                             then favicons v @ [f] else favicons v)
           \<and> stored v' = (if data f \<noteq> None \<and> data f \<notin> set (map data (favicons v))
                             then stored v + 1 else stored v)
           \<and> payloads_ok (favicons v')"
proof (cases "data f = None")
  case True
  then show ?thesis using assms
    by (simp add: favicon_callback_def done_fn_def arrive_None)
next
  case False
  from assms have all: "list_all (\<lambda>f. data f \<noteq> None) (favicons v)"
    by (simp add: payloads_ok_def)
  show ?thesis
    using False assms arrive_Some [OF all False]
    by (auto simp: favicon_callback_def done_fn_def payloads_ok_def)
qed

text \<open>The callback of \<open>getHTML\<close>, by cases.\<close>

lemma html_callback_cases:
  "html_callback root protocol html v =
     (if found_candidates root protocol html \<noteq> []
      then Inr (v\<lparr>expected := expected v + length (found_candidates root protocol html),
                  htmlLoaded := True\<rparr>,
                None, length (found_candidates root protocol html))
      else Inr (v\<lparr>htmlLoaded := True, returned := returned v + 1\<rparr>,
                (if complete (v\<lparr>htmlLoaded := True, returned := returned v + 1\<rparr>)
                 then Some (completion_block (v\<lparr>htmlLoaded := True, returned := returned v + 1\<rparr>))
                 else None),
                0))"
  by (simp add: html_callback_def no_candidates_def found_candidates_def done_fn_None Let_def
        split: option.splits)

lemma html_callback_favicons:
  "\<exists>v' blk k. html_callback root protocol html v = Inr (v', blk, k)
      \<and> favicons v' = favicons v \<and> stored v' = stored v \<and> expected v \<le> expected v'"
  by (simp add: html_callback_cases)

lemma step_favicons:
  assumes "payloads_ok (favicons (job s))" and "step root protocol ev s = Inr s'"
  shows "payloads_ok (favicons (job s'))
       \<and> favicons (job s') =
           favicons (job s)
             @ filter (\<lambda>g. data g \<notin> set (map data (favicons (job s)))) (payloads [ev])"
proof (cases ev)
  case (FaviconBack f)
  from favicon_callback_favicons [OF assms(1), of f] obtain v' blk where
    cb: "favicon_callback f (job s) = Inr (v', blk)"
    and fv: "favicons v' = (if data f \<noteq> None \<and> data f \<notin> set (map data (favicons (job s)))
                             then favicons (job s) @ [f] else favicons (job s))"
    and ok: "payloads_ok (favicons v')"
    by blast
  from assms(2) FaviconBack cb have "job s' = v'"
    by (auto simp: step_def split: if_splits)
  with fv ok FaviconBack show ?thesis by auto
next
  case (HtmlBack html)
  from html_callback_favicons [of root protocol html "job s"] obtain v' blk k where
    cb: "html_callback root protocol html (job s) = Inr (v', blk, k)"
    and fv: "favicons v' = favicons (job s)"
    by blast
  from assms(2) HtmlBack cb have "job s' = v'"
    by (auto simp: step_def split: if_splits)
  with fv assms(1) HtmlBack show ?thesis by simp
qed

text \<open>A callback that the event loop can deliver never throws.\<close>

lemma step_error:
  assumes "payloads_ok (favicons (job s))" and "step root protocol ev s = Inl e"
  shows "e = NoSuchCallback"
proof (cases ev)
  case (FaviconBack f)
  from favicon_callback_favicons [OF assms(1), of f] obtain v' blk where
    "favicon_callback f (job s) = Inr (v', blk)" by blast
  with assms(2) FaviconBack show ?thesis
    by (simp add: step_def split: if_splits)
next
  case (HtmlBack html)
  from html_callback_favicons [of root protocol html "job s"] obtain v' blk k where
    "html_callback root protocol html (job s) = Inr (v', blk, k)" by blast
  with assms(2) HtmlBack show ?thesis
    by (simp add: step_def split: if_splits)
qed

lemma run_favicons:
  assumes "payloads_ok (favicons (job s))" and "run root protocol evs s = Inr s'"
  shows "payloads_ok (favicons (job s'))
       \<and> favicons (job s') =
           favicons (job s)
             @ first_by_data
                 (filter (\<lambda>g. data g \<notin> set (map data (favicons (job s)))) (payloads evs))"
  using assms
proof (induction evs arbitrary: s)
  case Nil
  then show ?case by simp
next
  case (Cons ev evs)
  from Cons.prems(2) obtain s1 where
    st: "step root protocol ev s = Inr s1" and rest: "run root protocol evs s1 = Inr s'"
    by (auto split: sum.splits)
  from step_favicons [OF Cons.prems(1) st] have
    ok1: "payloads_ok (favicons (job s1))"
    and f1: "favicons (job s1) =
               favicons (job s)
                 @ filter (\<lambda>g. data g \<notin> set (map data (favicons (job s)))) (payloads [ev])"
    by blast+
  from Cons.IH [OF ok1 rest] have
    ok': "payloads_ok (favicons (job s'))"
    and f': "favicons (job s') =
               favicons (job s1)
                 @ first_by_data
                     (filter (\<lambda>g. data g \<notin> set (map data (favicons (job s1)))) (payloads evs))"
    by blast+
  show ?case
  proof (cases ev)
    case (HtmlBack html)
    with f1 f' ok' show ?thesis by simp
  next
    case (FaviconBack f)
    show ?thesis
    proof (cases "data f \<noteq> None \<and> data f \<notin> set (map data (favicons (job s)))")
      case False
      with FaviconBack f1 have "favicons (job s1) = favicons (job s)" by auto
      with f' ok' FaviconBack False show ?thesis by auto
    next
      case True
      with FaviconBack f1 have eq: "favicons (job s1) = favicons (job s) @ [f]" by auto
      have "filter (\<lambda>g. data g \<notin> set (map data (favicons (job s) @ [f]))) (payloads evs)
            = filter (\<lambda>g. data g \<noteq> data f)
                (filter (\<lambda>g. data g \<notin> set (map data (favicons (job s)))) (payloads evs))"
        by (auto intro: filter_cong)
      with f' ok' FaviconBack True eq show ?thesis by simp
    qed
  qed
qed

lemma initial_ok: "payloads_ok (favicons (job initial_sys))"
  by (simp add: payloads_ok_def initial_sys_def initial_vars_def)

lemma run_error:
  "payloads_ok (favicons (job s)) \<Longrightarrow> run root protocol evs s = Inl e \<Longrightarrow> e = NoSuchCallback"
proof (induction evs arbitrary: s)
  case Nil
  then show ?case by simp
next
  case (Cons ev evs)
  show ?case
  proof (cases "step root protocol ev s")
    case (Inl e')
    with Cons.prems show ?thesis using step_error [of s root protocol ev e'] by simp
  next
    case (Inr s1)
    from step_favicons [OF Cons.prems(1) Inr] have ok1: "payloads_ok (favicons (job s1))"
      by blast
    from Cons.prems(2) Inr have "run root protocol evs s1 = Inl e" by simp
    from Cons.IH [OF ok1 this] show ?thesis .
  qed
qed

text \<open>
  Claim C5. After any sequence of callbacks of one request, no two entries of
  \<open>favicons\<close> have the same payload bytes; and the next arriving object is appended
  exactly when it carries a payload that differs from every stored payload, and is
  left out otherwise.
\<close>

theorem unique_payloads_distinct:
  assumes "run root protocol evs initial_sys = Inr s"
  shows "distinct (map data (favicons (job s)))
       \<and> (\<exists>v' blk. favicon_callback f (job s) = Inr (v', blk)
             \<and> favicons v' =
                 (if data f \<noteq> None \<and> data f \<notin> set (map data (favicons (job s)))
                  then favicons (job s) @ [f] else favicons (job s)))"
proof -
  from run_favicons [OF initial_ok assms] have ok: "payloads_ok (favicons (job s))" by blast
  then have "distinct (map data (favicons (job s)))" by (simp add: payloads_ok_def)
  moreover from favicon_callback_favicons [OF ok, of f]
  have "\<exists>v' blk. favicon_callback f (job s) = Inr (v', blk)
             \<and> favicons v' =
                 (if data f \<noteq> None \<and> data f \<notin> set (map data (favicons (job s)))
                  then favicons (job s) @ [f] else favicons (job s))"
    by blast
  ultimately show ?thesis by blast
qed

lemmas run_eval = step_def favicon_callback_def done_fn_def arrive_def complete_def ran_def
  initial_sys_def initial_vars_def completion_block_def html_callback_def no_candidates_def

theorem unique_payloads_distinct_witness:
  "\<exists>s. run ''http://example.com'' ''http:''
          [FaviconBack icon_ico, FaviconBack icon_touch, FaviconBack icon_tile] initial_sys = Inr s
       \<and> favicons (job s) = [icon_ico, icon_touch]
       \<and> distinct (map data (favicons (job s)))"
proof -
  have r: "run ''http://example.com'' ''http:''
             [FaviconBack icon_ico, FaviconBack icon_touch, FaviconBack icon_tile] initial_sys
           = Inr \<lparr>job = \<lparr>returned = 3, expected = 3, htmlLoaded = False, converted = 0, stored = 2,
                          favicons = [icon_ico, icon_touch]\<rparr>,
                   inflight = 0, htmlPending = True, blocks = []\<rparr>"
    by (simp add: run_eval icon_ico_def icon_touch_def icon_tile_def)
  from unique_payloads_distinct [OF r, of icon_tile]
  have "distinct (map data [icon_ico, icon_touch])" by simp
  with r show ?thesis by simp
qed

text \<open>
  Claim C10. In any state a request can reach, the callback of an object whose payload
  is already among the stored ones counts the arrival (\<open>returned\<close> grows by one) and
  changes nothing else: \<open>favicons\<close> with the earlier object, its \<open>url\<close> and
  \<open>bgcolor\<close>, and \<open>stored\<close> stay as they are, and the new object is dropped. So
  \<open>favicons\<close> is, at any moment, the first arrival of every payload, in the order
  of arrival.
\<close>

theorem duplicate_payload_is_dropped:
  assumes "run root protocol evs initial_sys = Inr s"
  shows "(data f \<in> set (map data (favicons (job s))) \<longrightarrow>
            favicon_callback f (job s) =
              Inr ((job s)\<lparr>returned := returned (job s) + 1\<rparr>,
                   if complete ((job s)\<lparr>returned := returned (job s) + 1\<rparr>)
                   then Some (completion_block ((job s)\<lparr>returned := returned (job s) + 1\<rparr>))
                   else None))
       \<and> favicons (job s) = first_by_data (payloads evs)"
proof -
  from run_favicons [OF initial_ok assms] have
    ok: "payloads_ok (favicons (job s))"
    and fv: "favicons (job s) =
       favicons (job initial_sys)
         @ first_by_data
             (filter (\<lambda>g. data g \<notin> set (map data (favicons (job initial_sys)))) (payloads evs))"
    by blast+
  from fv have order: "favicons (job s) = first_by_data (payloads evs)"
    by (simp add: initial_sys_def initial_vars_def)
  from ok have all: "list_all (\<lambda>f. data f \<noteq> None) (favicons (job s))"
    by (simp add: payloads_ok_def)
  have dup: "favicon_callback f (job s) =
              Inr ((job s)\<lparr>returned := returned (job s) + 1\<rparr>,
                   if complete ((job s)\<lparr>returned := returned (job s) + 1\<rparr>)
                   then Some (completion_block ((job s)\<lparr>returned := returned (job s) + 1\<rparr>))
                   else None)"
    if mem: "data f \<in> set (map data (favicons (job s)))"
  proof -
    from mem all have some: "data f \<noteq> None"
      by (auto simp: list_all_iff)
    from arrive_Some [OF all some] mem some show ?thesis
      by (simp add: favicon_callback_def done_fn_def)
  qed
  from dup order show ?thesis by blast
qed

theorem duplicate_payload_is_dropped_witness:
  "run ''http://example.com'' ''http:''
      [FaviconBack icon_ico, FaviconBack icon_missing, FaviconBack icon_touch] initial_sys
     = Inr \<lparr>job = \<lparr>returned = 3, expected = 3, htmlLoaded = False, converted = 0, stored = 2,
                   favicons = [icon_ico, icon_touch]\<rparr>,
             inflight = 0, htmlPending = True, blocks = []\<rparr>
   \<and> data icon_tile = data icon_ico
   \<and> favicon_callback icon_tile
         \<lparr>returned = 3, expected = 3, htmlLoaded = False, converted = 0, stored = 2,
            favicons = [icon_ico, icon_touch]\<rparr>
       = Inr (\<lparr>returned = 4, expected = 3, htmlLoaded = False, converted = 0, stored = 2,
                favicons = [icon_ico, icon_touch]\<rparr>, None)
   \<and> first_by_data (payloads [FaviconBack icon_ico, FaviconBack icon_missing, FaviconBack icon_touch])
       = [icon_ico, icon_touch]"
proof -
  let ?s = "\<lparr>job = \<lparr>returned = 3, expected = 3, htmlLoaded = False, converted = 0, stored = 2,
                     favicons = [icon_ico, icon_touch]\<rparr>,
               inflight = 0, htmlPending = True, blocks = []\<rparr>"
  have r: "run ''http://example.com'' ''http:''
             [FaviconBack icon_ico, FaviconBack icon_missing, FaviconBack icon_touch] initial_sys
           = Inr ?s"
    by (simp add: run_eval icon_ico_def icon_touch_def icon_missing_def)
  have same: "data icon_tile = data icon_ico"
    by (simp add: icon_tile_def icon_ico_def)
  then have mem: "data icon_tile \<in> set (map data (favicons (job ?s)))"
    by simp
  from duplicate_payload_is_dropped [OF r, of icon_tile] have
    imp: "data icon_tile \<in> set (map data (favicons (job ?s))) \<longrightarrow>
            favicon_callback icon_tile (job ?s) =
              Inr ((job ?s)\<lparr>returned := returned (job ?s) + 1\<rparr>,
                   if complete ((job ?s)\<lparr>returned := returned (job ?s) + 1\<rparr>)
                   then Some (completion_block ((job ?s)\<lparr>returned := returned (job ?s) + 1\<rparr>))
                   else None)"
    and order: "favicons (job ?s) =
       first_by_data (payloads [FaviconBack icon_ico, FaviconBack icon_missing, FaviconBack icon_touch])"
    by blast+
  from imp mem have
    "favicon_callback icon_tile (job ?s) =
              Inr ((job ?s)\<lparr>returned := returned (job ?s) + 1\<rparr>,
                   if complete ((job ?s)\<lparr>returned := returned (job ?s) + 1\<rparr>)
                   then Some (completion_block ((job ?s)\<lparr>returned := returned (job ?s) + 1\<rparr>))
                   else None)"
    by (rule mp)
  then have cb: "favicon_callback icon_tile
         \<lparr>returned = 3, expected = 3, htmlLoaded = False, converted = 0, stored = 2,
            favicons = [icon_ico, icon_touch]\<rparr>
       = Inr (\<lparr>returned = 4, expected = 3, htmlLoaded = False, converted = 0, stored = 2,
                favicons = [icon_ico, icon_touch]\<rparr>, None)"
    by (simp add: complete_def)
  from order have ord: "first_by_data (payloads [FaviconBack icon_ico, FaviconBack icon_missing, FaviconBack icon_touch])
       = [icon_ico, icon_touch]"
    by simp
  from r same cb ord show ?thesis by blast
qed

subsection \<open>The best fit\<close>

lemma best_step_rule:
  "best_step size_req file (bestFit, d0) =
     (case difference_of (width_of file) size_req of
        None \<Rightarrow> (bestFit, d0)
      | Some d \<Rightarrow> if d0 < d \<and> d0 \<le> 0 then (Some file, d) else (bestFit, d0))"
  by (auto simp: best_step_def split: option.splits)

lemma best_step_frozen: "0 < d0 \<Longrightarrow> best_step size_req file (bestFit, d0) = (bestFit, d0)"
  by (simp add: best_step_rule split: option.splits)


lemma scan_frozen:
  "0 < d0 \<Longrightarrow> f \<noteq> [] \<Longrightarrow> list_all (\<lambda>g. \<not> loose_eq size_req (width_of g)) files \<Longrightarrow>
   scan size_req foldername files (Some f, d0) = [LoadIcon (foldername @ f)]"
  by (induction files) (simp_all add: best_step_frozen)

















subsection \<open>One fetch\<close>













subsection \<open>The join of the fetches\<close>

text \<open>
  The invariant holds at the start and is kept by every callback. It follows that
  nothing completes before the HTML callback, that \<open>expected\<close> never falls below 3,
  and that a request whose HTML yields candidates completes exactly once, on its last
  callback, with \<open>returned = expected\<close>.
\<close>

lemma join_inv_initial: "join_inv initial_sys"
  by (simp add: join_inv_def initial_sys_def initial_vars_def payloads_ok_def)

lemma join_inv_FaviconBack:
  assumes inv: "join_inv s" and st: "step root protocol (FaviconBack f) s = Inr s'"
  shows "join_inv s'"
proof -
  from inv have ok: "payloads_ok (favicons (job s))" by (simp add: join_inv_def)
  from favicon_callback_favicons [OF ok, of f] obtain v' blk where
    cb: "favicon_callback f (job s) = Inr (v', blk)"
    and r: "returned v' = returned (job s) + 1"
    and e: "expected v' = expected (job s)"
    and h: "htmlLoaded v' = htmlLoaded (job s)"
    and b: "blk = (if complete v' then Some (completion_block v') else None)"
    and ok': "payloads_ok (favicons v')"
    by blast
  from st cb have pos: "0 < inflight s"
    and s': "s' = s\<lparr>job := v', inflight := inflight s - 1, blocks := blocks s @ ran blk\<rparr>"
    by (auto simp: step_def split: if_splits)
  show ?thesis
  proof (cases "htmlPending s")
    case True
    with inv have "\<not> htmlLoaded (job s)" "expected (job s) = 3"
      "returned (job s) + inflight s = 3" "blocks s = []"
      by (simp_all add: join_inv_def)
    with True pos r e h b ok' s' show ?thesis
      by (simp add: join_inv_def complete_def ran_def)
  next
    case False
    note np = this
    show ?thesis
    proof (cases "3 < expected (job s)")
      case True
      with np inv have "htmlLoaded (job s)" "returned (job s) + inflight s = expected (job s)"
        "blocks s = (if inflight s = 0 then [completion_block (job s)] else [])"
        by (simp_all add: join_inv_def)
      with True np pos r e h b ok' s' show ?thesis
        by (auto simp: join_inv_def complete_def ran_def)
    next
      case False
      with np inv have "htmlLoaded (job s)" "expected (job s) = 3"
        "returned (job s) + inflight s = 4"
        by (simp_all add: join_inv_def)
      with False np pos r e h ok' s' show ?thesis
        by (simp add: join_inv_def)
    qed
  qed
qed

lemma join_inv_HtmlBack:
  assumes inv: "join_inv s" and st: "step root protocol (HtmlBack html) s = Inr s'"
  shows "join_inv s'"
proof -
  from st have pend: "htmlPending s" by (auto simp: step_def split: if_splits)
  with inv have ok: "payloads_ok (favicons (job s))" and nl: "\<not> htmlLoaded (job s)"
    and e3: "expected (job s) = 3" and sum: "returned (job s) + inflight s = 3"
    and nb: "blocks s = []"
    by (simp_all add: join_inv_def)
  show ?thesis
  proof (cases "found_candidates root protocol html \<noteq> []")
    case True
    with st pend have
      "s' = s\<lparr>job := (job s)\<lparr>expected := expected (job s)
                                  + length (found_candidates root protocol html),
                              htmlLoaded := True\<rparr>,
                inflight := inflight s + length (found_candidates root protocol html),
                htmlPending := False, blocks := blocks s @ ran None\<rparr>"
      by (simp add: step_def html_callback_cases)
    with True ok e3 sum nb show ?thesis
      by (simp add: join_inv_def ran_def)
  next
    case False
    with st pend have
      "s' = s\<lparr>job := (job s)\<lparr>htmlLoaded := True, returned := returned (job s) + 1\<rparr>,
                inflight := inflight s + 0, htmlPending := False,
                blocks := blocks s @ ran (if complete ((job s)\<lparr>htmlLoaded := True,
                                                        returned := returned (job s) + 1\<rparr>)
                    then Some (completion_block ((job s)\<lparr>htmlLoaded := True,
                                                        returned := returned (job s) + 1\<rparr>))
                    else None)\<rparr>"
      by (simp add: step_def html_callback_cases)
    with ok e3 sum show ?thesis
      by (simp add: join_inv_def)
  qed
qed

lemma join_inv_step: "join_inv s \<Longrightarrow> step root protocol ev s = Inr s' \<Longrightarrow> join_inv s'"
  by (cases ev) (auto intro: join_inv_FaviconBack join_inv_HtmlBack)

lemma join_inv_run: "join_inv s \<Longrightarrow> run root protocol evs s = Inr s' \<Longrightarrow> join_inv s'"
proof (induction evs arbitrary: s)
  case Nil
  then show ?case by simp
next
  case (Cons ev evs)
  from Cons.prems(2) obtain s1 where
    st: "step root protocol ev s = Inr s1" and rest: "run root protocol evs s1 = Inr s'"
    by (auto split: sum.splits)
  from join_inv_step [OF Cons.prems(1) st] have "join_inv s1" .
  from Cons.IH [OF this rest] show ?case .
qed

lemma block_runs_iff_complete:
  "done_fn newFavicon v = Inr (v', blk) \<Longrightarrow>
     blk = (if complete v' then Some (completion_block v') else None)"
  by (auto simp: done_fn_def split: sum.splits)

lemma step_expected:
  assumes inv: "join_inv s" and st: "step root protocol ev s = Inr s'"
  shows "expected (job s) \<le> expected (job s')"
proof (cases ev)
  case (FaviconBack f)
  from inv have ok: "payloads_ok (favicons (job s))" by (simp add: join_inv_def)
  from favicon_callback_favicons [OF ok, of f] obtain v' blk where
    "favicon_callback f (job s) = Inr (v', blk)" and "expected v' = expected (job s)"
    by blast
  with st FaviconBack show ?thesis
    by (auto simp: step_def split: if_splits)
next
  case (HtmlBack html)
  from html_callback_favicons [of root protocol html "job s"] obtain v' blk k where
    "html_callback root protocol html (job s) = Inr (v', blk, k)"
    and "expected (job s) \<le> expected v'"
    by blast
  with st HtmlBack show ?thesis
    by (auto simp: step_def split: if_splits)
qed

lemma expected_only_grows:
  assumes "join_inv s" and "run root protocol evs s = Inr s'"
  shows "expected (job s) \<le> expected (job s')"
  using assms
proof (induction evs arbitrary: s)
  case Nil
  then show ?case by simp
next
  case (Cons ev evs)
  from Cons.prems(2) obtain s1 where
    st: "step root protocol ev s = Inr s1" and rest: "run root protocol evs s1 = Inr s'"
    by (auto split: sum.splits)
  from step_expected [OF Cons.prems(1) st] have "expected (job s) \<le> expected (job s1)" .
  also from Cons.IH [OF join_inv_step [OF Cons.prems(1) st] rest]
  have "expected (job s1) \<le> expected (job s')" .
  finally show ?case .
qed

lemma completes_once_with_candidates:
  assumes "run root protocol evs initial_sys = Inr s" and "3 < expected (job s)"
  shows "returned (job s) + inflight s = expected (job s)
       \<and> blocks s = (if inflight s = 0 then [completion_block (job s)] else [])"
proof -
  from join_inv_run [OF join_inv_initial assms(1)] have inv: "join_inv s" .
  have "\<not> htmlPending s"
  proof
    assume "htmlPending s"
    with inv have "expected (job s) = 3" by (simp add: join_inv_def)
    with assms(2) show False by simp
  qed
  with inv assms(2) show ?thesis by (simp add: join_inv_def)
qed

lemma nothing_before_html:
  assumes "run root protocol evs initial_sys = Inr s" and "htmlPending s"
  shows "blocks s = [] \<and> \<not> complete (job s)"
  using join_inv_run [OF join_inv_initial assms(1)] assms(2)
  by (simp add: join_inv_def complete_def)

lemma expected_at_least_three:
  assumes "run root protocol evs initial_sys = Inr s"
  shows "3 \<le> expected (job s)"
  using join_inv_run [OF join_inv_initial assms]
  by (auto simp: join_inv_def split: if_splits)

text \<open>
  Claim C1. The completion block runs in \<open>done\<close> whenever \<open>returned >= expected\<close> and
  \<open>htmlLoaded\<close> hold after the arrival was counted; nothing records that it ran. When
  the HTML yields no candidate its callback calls \<open>done()\<close> itself, a fourth arrival
  against \<open>expected = 3\<close>: if that callback comes before the last of the three root
  fetches, the block runs on the third arrival and again on the fourth. Here the HTML
  fetch fails first and two root icons are found: the block runs twice, and the first
  icon is saved for conversion twice.
\<close>

theorem completion_block_runs_twice:
  "run ''http://example.com'' ''http:''
     [HtmlBack None, FaviconBack icon_ico, FaviconBack icon_missing, FaviconBack icon_touch]
     initial_sys
   = Inr \<lparr>job = \<lparr>returned = 4, expected = 3, htmlLoaded = True, converted = 0, stored = 2,
                  favicons = [icon_ico, icon_touch]\<rparr>,
            inflight = 0, htmlPending = False,
            blocks = [[SaveFavicon 0 icon_ico], [SaveFavicon 0 icon_ico, SaveFavicon 1 icon_touch]]\<rparr>"
  by (simp add: run_eval icon_ico_def icon_touch_def icon_missing_def)

text \<open>
  Claim C2. The same call of \<open>done()\<close> from the HTML callback makes the arrivals
  exceed the expected count: when the HTML callback comes last and finds no candidate,
  the block runs once, at \<open>returned = 4\<close> with \<open>expected = 3\<close>.
\<close>

theorem arrivals_exceed_expected:
  "run ''http://example.com'' ''http:''
     [FaviconBack icon_ico, FaviconBack icon_missing, FaviconBack icon_missing, HtmlBack None]
     initial_sys
   = Inr \<lparr>job = \<lparr>returned = 4, expected = 3, htmlLoaded = True, converted = 0, stored = 1,
                  favicons = [icon_ico]\<rparr>,
            inflight = 0, htmlPending = False,
            blocks = [[SaveFavicon 0 icon_ico]]\<rparr>"
  by (simp add: run_eval icon_ico_def icon_missing_def)

subsection \<open>The join of the conversions\<close>

text \<open>
  Either callback counts every report, whatever its outcome; the callback of server.js
  looks the cache up again exactly on the report that makes \<open>converted\<close> equal to
  \<open>stored\<close>, the last of the \<open>stored\<close> conversions.
\<close>

lemma fst_reports_Cons:
  "fst (reports cb (err # errs) v) = fst (reports cb errs (fst (cb err v)))"
  by (simp split: prod.splits)

lemma reports_counts_every_attempt:
  assumes "\<And>err v. fst (cb err v) = v\<lparr>converted := converted v + 1\<rparr>"
  shows "fst (reports cb errs v) = v\<lparr>converted := converted v + length errs\<rparr>"
proof (induction errs arbitrary: v)
  case Nil
  show ?case by simp
next
  case (Cons err errs)
  show ?case
    by (simp only: fst_reports_Cons assms Cons.IH) simp
qed

lemma convert_callback_counts:
  "fst (convert_callback err v) = v\<lparr>converted := converted v + 1\<rparr>"
  "fst (convert_callback_part_000 err v) = v\<lparr>converted := converted v + 1\<rparr>"
  by (simp_all add: convert_callback_def convert_callback_part_000_def Let_def)

lemma join_not_before_last:
  "converted v + length errs < stored v \<Longrightarrow>
     reports convert_callback errs v = (v\<lparr>converted := converted v + length errs\<rparr>, [])"
  by (induction errs arbitrary: v) (simp_all add: convert_callback_def Let_def)

lemma join_at_last_report:
  "converted v + length errs = stored v \<Longrightarrow> errs \<noteq> [] \<Longrightarrow>
     reports convert_callback errs v = (v\<lparr>converted := stored v\<rparr>, [ServeFromCache])"
proof (induction errs arbitrary: v)
  case Nil
  then show ?case by simp
next
  case (Cons err errs)
  show ?case
  proof (cases errs)
    case Nil
    with Cons.prems show ?thesis by (simp add: convert_callback_def Let_def)
  next
    case (Cons e es)
    let ?v = "v\<lparr>converted := converted v + 1\<rparr>"
    from Cons.prems \<open>errs = e # es\<close> have "converted ?v + length errs = stored ?v" "errs \<noteq> []"
      by simp_all
    from Cons.IH [OF this] Cons.prems \<open>errs = e # es\<close> show ?thesis
      by (simp add: convert_callback_def Let_def)
  qed
qed

text \<open>
  Claim C6. The callback of the earlier source file returns in its error branch, before
  the test \<open>converted == stored\<close>: when the conversion that reports last has failed,
  the counter reaches \<open>stored\<close> and the cache is never looked up again, so the request
  is left without an answer. The callback of server.js makes the test after either
  outcome. Here one payload was stored and its conversion fails.
\<close>

theorem failed_conversion_skips_the_join:
  "reports convert_callback_part_000 [True]
     \<lparr>returned = 4, expected = 3, htmlLoaded = True, converted = 0, stored = 1, favicons = [icon_ico]\<rparr>
   = (\<lparr>returned = 4, expected = 3, htmlLoaded = True, converted = 1, stored = 1, favicons = [icon_ico]\<rparr>,
      [])
   \<and> reports convert_callback [True]
     \<lparr>returned = 4, expected = 3, htmlLoaded = True, converted = 0, stored = 1, favicons = [icon_ico]\<rparr>
   = (\<lparr>returned = 4, expected = 3, htmlLoaded = True, converted = 1, stored = 1, favicons = [icon_ico]\<rparr>,
      [ServeFromCache])"
  by (simp add: convert_callback_part_000_def convert_callback_def)

end
